theory Spec2Isabelle
  imports Main "HOL-Library.Sublist"
begin

section \<open>check-domains: a shallow embedding of \<^verbatim>\<open>check_domains.py\<close>\<close>

text \<open>
  Python strings are modelled as \<^typ>\<open>string\<close>. A \<^typ>\<open>char\<close> stands for one code
  point below 256, so the model covers texts in that range. Python exceptions are values
  of \<open>pyexn\<close> and a call that may raise returns \<open>pyexn + 'a\<close>, with \<open>Inl\<close> the raised
  exception. Everything the program reads from outside (files, the YAML parser, the WHOIS
  service) is a parameter of the model.
\<close>

subsection \<open>Exceptions\<close>

text \<open>
  The exceptions the program can meet. Every value of \<open>pyexn\<close> is an instance of Python's
  class \<^verbatim>\<open>Exception\<close>; \<open>OtherException name\<close> is any other subclass of it
  (\<^verbatim>\<open>PermissionError\<close>, \<^verbatim>\<open>socket.timeout\<close>, the WHOIS library's own errors, what a
  callback raises). Interpreter signals outside \<^verbatim>\<open>Exception\<close> (\<^verbatim>\<open>KeyboardInterrupt\<close>,
  \<^verbatim>\<open>SystemExit\<close>) arrive asynchronously and are not part of this sequential model.
\<close>

datatype pyexn = FileNotFoundError | YAMLError | AttributeError | OtherException string

definition isinstance_FileNotFoundError :: "pyexn \<Rightarrow> bool" where
  "isinstance_FileNotFoundError e = (e = FileNotFoundError)"

definition isinstance_Exception :: "pyexn \<Rightarrow> bool" where
  "isinstance_Exception e = True"

text \<open>
  \<^verbatim>\<open>try: body  except <class>: return dflt\<close>, where \<open>handles\<close> is the \<^verbatim>\<open>isinstance\<close>
  test of the clause: an exception the clause does not match propagates.
\<close>

definition try_except :: "(pyexn \<Rightarrow> bool) \<Rightarrow> 'a \<Rightarrow> pyexn + 'a \<Rightarrow> pyexn + 'a" where
  "try_except handles dflt body =
     (case body of
        Inl e \<Rightarrow> if handles e then Inr dflt else Inl e
      | Inr v \<Rightarrow> Inr v)"

subsection \<open>Strings and text files\<close>

abbreviation LF :: char where
  "LF \<equiv> CHR 0x0A"

text \<open>The code points below 256 for which \<^verbatim>\<open>str.isspace\<close> holds.\<close>

definition isspace :: "char \<Rightarrow> bool" where
  "isspace c = (c \<in> set [CHR 0x09, CHR 0x0A, CHR 0x0B, CHR 0x0C, CHR 0x0D,
                          CHR 0x1C, CHR 0x1D, CHR 0x1E, CHR 0x1F, CHR 0x20,
                          CHR 0x85, CHR 0xA0])"

definition lstrip :: "string \<Rightarrow> string" where
  "lstrip s = dropWhile isspace s"

definition rstrip :: "string \<Rightarrow> string" where
  "rstrip s = rev (dropWhile isspace (rev s))"

text \<open>\<^verbatim>\<open>str.strip()\<close> with no argument removes leading and trailing whitespace.\<close>

definition strip :: "string \<Rightarrow> string" where
  "strip s = rstrip (lstrip s)"

text \<open>
  Iterating over a file opened in text mode yields its lines, each with its terminating
  newline; a last line without one is yielded as it is, and an empty file yields nothing.
  The text is what the file object delivers, so line ends are already \<open>LF\<close>.
\<close>

fun file_lines :: "string \<Rightarrow> string list" where
  "file_lines [] = []"
| "file_lines (c # cs) =
     (if c = LF then [c] # file_lines cs
      else (case file_lines cs of
              [] \<Rightarrow> [[c]]
            | l # ls \<Rightarrow> (c # l) # ls))"

text \<open>\<^verbatim>\<open>sep.join(xs)\<close>\<close>

fun join :: "string \<Rightarrow> string list \<Rightarrow> string" where
  "join sep [] = []"
| "join sep [x] = x"
| "join sep (x # y # ys) = x @ sep @ join sep (y # ys)"

subsection \<open>The host: files and the YAML parser\<close>

text \<open>
  What \<^verbatim>\<open>yaml.safe_load\<close> can return: \<^verbatim>\<open>None\<close> for an empty document, a scalar, a
  sequence, or a mapping. Of these only the mapping (a \<^verbatim>\<open>dict\<close>, given by its items) has
  a method \<^verbatim>\<open>get\<close>. The values of a mapping are kept as lists of strings, the type
  \<^verbatim>\<open>load_config\<close> declares for what it returns.
\<close>

datatype yaml = YNull | YScalar string | YSequence "string list"
  | YMapping "(string \<times> string list) list"

text \<open>\<^verbatim>\<open>config.get(key, dflt)\<close>: an object without the attribute raises.\<close>

fun py_get :: "yaml \<Rightarrow> string \<Rightarrow> string list \<Rightarrow> pyexn + string list" where
  "py_get (YMapping items) key dflt =
     Inr (case map_of items key of Some v \<Rightarrow> v | None \<Rightarrow> dflt)"
| "py_get YNull key dflt = Inl AttributeError"
| "py_get (YScalar v) key dflt = Inl AttributeError"
| "py_get (YSequence vs) key dflt = Inl AttributeError"

text \<open>
  \<open>open_text h path\<close> is the outcome of opening \<open>path\<close> for reading and reading it as
  text: the text, or the exception raised (\<open>FileNotFoundError\<close> for an absent file).
  \<open>yaml_safe_load h text\<close> is the outcome of the YAML parser on that text.
\<close>

record host =
  open_text :: "string \<Rightarrow> pyexn + string"
  yaml_safe_load :: "string \<Rightarrow> pyexn + yaml"

subsection \<open>Loaders\<close>

text \<open>
  \<^verbatim>\<open>
  try:
      with open(config_file, 'r') as file:
          config = yaml.safe_load(file)
      return config.get('top_level_domains', [])
  except FileNotFoundError:
      return []
  \<close>
\<close>

definition load_config :: "host \<Rightarrow> string \<Rightarrow> pyexn + string list" where
  "load_config h config_file =
     try_except isinstance_FileNotFoundError []
       (case open_text h config_file of
          Inl e \<Rightarrow> Inl e
        | Inr file \<Rightarrow>
            (case yaml_safe_load h file of
               Inl e \<Rightarrow> Inl e
             | Inr config \<Rightarrow> py_get config ''top_level_domains'' []))"

text \<open>
  \<^verbatim>\<open>
  try:
      with open(input_file, 'r') as file:
          return [line.strip() for line in file if line.strip()]
  except FileNotFoundError:
      return []
  \<close>
  A string is true when it is not empty.
\<close>

definition load_strings :: "host \<Rightarrow> string \<Rightarrow> pyexn + string list" where
  "load_strings h input_file =
     try_except isinstance_FileNotFoundError []
       (case open_text h input_file of
          Inl e \<Rightarrow> Inl e
        | Inr file \<Rightarrow> Inr [strip line. line \<leftarrow> file_lines file, strip line \<noteq> []])"

subsection \<open>Availability prober\<close>

text \<open>
  The WHOIS service is stateful: a query takes the state of the outside world and
  returns a record or raises, and leaves a new state. The record is never inspected.
  \<^verbatim>\<open>
  try:
      whois.whois(domain)
      return True
  except Exception:
      return False
  \<close>
\<close>

type_synonym ('w, 'r) probe = "string \<Rightarrow> 'w \<Rightarrow> (pyexn + 'r) \<times> 'w"

definition check_domain :: "('w, 'r) probe \<Rightarrow> string \<Rightarrow> 'w \<Rightarrow> (pyexn + bool) \<times> 'w" where
  "check_domain whois domain w =
     (case whois domain w of
        (Inr entry, w') \<Rightarrow> (Inr True, w')
      | (Inl e, w') \<Rightarrow> (if isinstance_Exception e then Inr False else Inl e, w'))"

subsection \<open>Combination generator\<close>

text \<open>
  \<^verbatim>\<open>return [(f"{base}.{tld}", base) for base in base_strings for tld in tlds]\<close>
\<close>

definition generate_domain_combinations ::
  "string list \<Rightarrow> string list \<Rightarrow> (string \<times> string) list" where
  "generate_domain_combinations base_strings tlds =
     [(base @ ''.'' @ tld, base). base \<leftarrow> base_strings, tld \<leftarrow> tlds]"

subsection \<open>Result aggregator\<close>

text \<open>
  Calling a notification sink: given the argument and the state of the world the call
  returns or raises, and leaves a new state. The run keeps a log of the calls it makes,
  in the order it makes them: \<open>Notified d\<close> for a call of the sink with \<open>d\<close>, and
  \<open>Probed d r\<close> for a call of \<^verbatim>\<open>check_domain\<close> with \<open>d\<close> that ended as \<open>r\<close>. The log is
  not visible to the sink or to the service.
\<close>

type_synonym 'w sink = "string \<Rightarrow> 'w \<Rightarrow> (pyexn + unit) \<times> 'w"

text \<open>
  The object passed as \<^verbatim>\<open>status_callback\<close>: what the truth test \<^verbatim>\<open>if status_callback:\<close>
  finds and what a call of the object does. The argument itself is \<^verbatim>\<open>None\<close> (the
  default) or such an object. A function tests true, as does every object whose class
  does not say otherwise; an object whose \<^verbatim>\<open>__bool__\<close> or \<^verbatim>\<open>__len__\<close> makes it false can
  still be callable. The truth test is taken to have no effect of its own.
\<close>

record 'w callback =
  truthy :: bool
  call :: "'w sink"

definition function_object :: "'w sink \<Rightarrow> 'w callback" where
  "function_object f = \<lparr>truthy = True, call = f\<rparr>"

datatype event = Notified string | Probed string "pyexn + bool"

text \<open>
  \<^verbatim>\<open>
  if status_callback:
      status_callback(domain)
  \<close>
  \<^verbatim>\<open>None\<close> is false; any other object is called only when it tests true.
\<close>

definition notify ::
  "'w callback option \<Rightarrow> string \<Rightarrow> event list \<Rightarrow> 'w \<Rightarrow>
   (pyexn + unit) \<times> event list \<times> 'w" where
  "notify status_callback domain log w =
     (case status_callback of
        None \<Rightarrow> (Inr (), log, w)
      | Some callback \<Rightarrow>
          if truthy callback
          then (case call callback domain w of (r, w') \<Rightarrow> (r, log @ [Notified domain], w'))
          else (Inr (), log, w))"

text \<open>
  \<^verbatim>\<open>
  for domain, base in domain_combinations:
      if status_callback:
          status_callback(domain)
      if not check_domain(domain):
          available_domains.append(domain)
  return available_domains
  \<close>
  The loop, from the list \<open>available_domains\<close> built so far.
\<close>

fun scan ::
  "('w, 'r) probe \<Rightarrow> 'w callback option \<Rightarrow> (string \<times> string) list \<Rightarrow> string list \<Rightarrow>
   event list \<Rightarrow> 'w \<Rightarrow> (pyexn + string list) \<times> event list \<times> 'w" where
  "scan whois status_callback [] available_domains log w = (Inr available_domains, log, w)"
| "scan whois status_callback ((domain, base) # rest) available_domains log w =
     (case notify status_callback domain log w of
        (Inl e, log1, w1) \<Rightarrow> (Inl e, log1, w1)
      | (Inr u, log1, w1) \<Rightarrow>
          (case check_domain whois domain w1 of
             (Inl e, w2) \<Rightarrow> (Inl e, log1 @ [Probed domain (Inl e)], w2)
           | (Inr registered, w2) \<Rightarrow>
               scan whois status_callback rest
                 (if \<not> registered then available_domains @ [domain] else available_domains)
                 (log1 @ [Probed domain (Inr registered)]) w2))"

definition find_available_domains ::
  "('w, 'r) probe \<Rightarrow> 'w callback option \<Rightarrow> (string \<times> string) list \<Rightarrow> 'w \<Rightarrow>
   (pyexn + string list) \<times> event list \<times> 'w" where
  "find_available_domains whois status_callback domain_combinations w =
     scan whois status_callback domain_combinations [] [] w"

subsection \<open>Output and the main pipeline\<close>

text \<open>
  In a run of the program the world is the text written to standard output so far and
  the state of the network. \<^verbatim>\<open>print(s)\<close> appends \<open>s\<close> and a newline.
\<close>

record 'n world =
  stdout :: string
  net :: 'n

definition print :: "string \<Rightarrow> 'n world \<Rightarrow> 'n world" where
  "print s w = w\<lparr>stdout := stdout w @ s @ [LF]\<rparr>"

text \<open>\<^verbatim>\<open>print(f"Checking: {base}")\<close>; the call returns \<^verbatim>\<open>None\<close>.\<close>

definition print_status :: "string \<Rightarrow> 'n world \<Rightarrow> (pyexn + unit) \<times> 'n world" where
  "print_status base w = (Inr (), print (''Checking: '' @ base) w)"

text \<open>
  \<^verbatim>\<open>
  if available_domains:
      print("Available domains:")
      print("\n".join(available_domains))
  else:
      print("No available domains found.")
  \<close>
\<close>

definition print_results :: "string list \<Rightarrow> 'n world \<Rightarrow> 'n world" where
  "print_results available_domains w =
     (if available_domains \<noteq> []
      then print (join [LF] available_domains) (print ''Available domains:'' w)
      else print ''No available domains found.'' w)"

text \<open>\<^verbatim>\<open>whois.whois\<close> in a run: the service acts on the network and prints nothing.\<close>

definition whois_whois :: "('n, 'r) probe \<Rightarrow> ('n world, 'r) probe" where
  "whois_whois service domain w =
     (case service domain (net w) of (r, n') \<Rightarrow> (r, w\<lparr>net := n'\<rparr>))"

text \<open>The parsed command line: \<^verbatim>\<open>args.input_file\<close> and \<^verbatim>\<open>args.config\<close>.\<close>

record args =
  input_file :: string
  config :: string

text \<open>
  \<^verbatim>\<open>
  tlds = load_config(args.config)
  base_strings = load_strings(args.input_file)
  domain_combinations = generate_domain_combinations(base_strings, tlds)
  available_domains = find_available_domains(domain_combinations, print_status)
  print_results(available_domains)
  \<close>
  The sink passed is the function \<^verbatim>\<open>print_status\<close>.
  The result is how the run ends, the log of the calls of the scan, and the world it
  leaves. The command line is taken as parsed, and writing to standard output is taken
  to succeed.
\<close>

definition main ::
  "host \<Rightarrow> ('n, 'r) probe \<Rightarrow> args \<Rightarrow> 'n world \<Rightarrow> (pyexn + unit) \<times> event list \<times> 'n world" where
  "main h service a w =
     (case load_config h (config a) of
        Inl e \<Rightarrow> (Inl e, [], w)
      | Inr tlds \<Rightarrow>
          (case load_strings h (input_file a) of
             Inl e \<Rightarrow> (Inl e, [], w)
           | Inr base_strings \<Rightarrow>
               (case find_available_domains (whois_whois service) (Some (function_object print_status))
                       (generate_domain_combinations base_strings tlds) w of
                  (Inl e, log, w') \<Rightarrow> (Inl e, log, w')
                | (Inr available_domains, log, w') \<Rightarrow>
                    (Inr (), log, print_results available_domains w'))))"

subsection \<open>Reading the log\<close>

text \<open>The calls of \<^verbatim>\<open>check_domain\<close> in a log, in order, each with how it ended.\<close>

fun probes :: "event list \<Rightarrow> (string \<times> (pyexn + bool)) list" where
  "probes [] = []"
| "probes (Notified d # es) = probes es"
| "probes (Probed d r # es) = (d, r) # probes es"

text \<open>
  \<open>prepend a l x\<close> is the outcome \<open>x\<close> of a scan seen from a caller that had already
  collected \<open>a\<close> and logged \<open>l\<close>. It is used to state how a scan splits into its steps.
\<close>

fun prepend ::
  "string list \<Rightarrow> event list \<Rightarrow> (pyexn + string list) \<times> event list \<times> 'w \<Rightarrow>
   (pyexn + string list) \<times> event list \<times> 'w" where
  "prepend a l (Inl e, t, w) = (Inl e, l @ t, w)"
| "prepend a l (Inr r, t, w) = (Inr (a @ r), l @ t, w)"

subsection \<open>Example inputs\<close>

text \<open>
  A host with a base-string file, a configuration, an empty configuration, a
  configuration without the key and one that does not parse; every other path is absent.
\<close>

definition example_host :: host where
  "example_host = \<lparr>
     open_text = (\<lambda>path.
       if path = ''domains.txt''
         then Inr (''  example  '' @ [LF] @ [LF] @ ''   '' @ [LF] @ ''test'')
       else if path = ''config.yaml'' then Inr ''top_level_domains: [com, net]''
       else if path = ''empty.yaml'' then Inr []
       else if path = ''other.yaml'' then Inr ''retries: [3]''
       else if path = ''broken.yaml'' then Inr ''top_level_domains: [''
       else Inl FileNotFoundError),
     yaml_safe_load = (\<lambda>text.
       if text = ''top_level_domains: [com, net]''
         then Inr (YMapping [(''top_level_domains'', [''com'', ''net''])])
       else if text = [] then Inr YNull
       else if text = ''retries: [3]'' then Inr (YMapping [(''retries'', [''3''])])
       else Inl YAMLError)\<rparr>"

text \<open>A WHOIS service that knows every domain but \<^verbatim>\<open>test.net\<close>, and counts its queries.\<close>

definition example_registry :: "string \<Rightarrow> pyexn + unit" where
  "example_registry domain =
     (if domain = ''test.net'' then Inl (OtherException ''No match'') else Inr ())"

definition example_whois :: "(nat, unit) probe" where
  "example_whois domain n = (example_registry domain, Suc n)"

text \<open>A sink that raises on \<^verbatim>\<open>test.net\<close> and returns on every other domain.\<close>

definition example_sink :: "nat sink" where
  "example_sink domain n =
     (if domain = ''test.net'' then Inl (OtherException ''sink failed'') else Inr (), n)"

text \<open>A sink that always returns.\<close>

definition quiet_sink :: "nat sink" where
  "quiet_sink domain n = (Inr (), n)"

text \<open>A callable object that tests false, such as an empty container with \<^verbatim>\<open>__call__\<close>.\<close>

definition example_falsy_sink :: "nat callback" where
  "example_falsy_sink = \<lparr>truthy = False, call = quiet_sink\<rparr>"

definition example_candidates :: "(string \<times> string) list" where
  "example_candidates =
     [(''test.com'', ''test''), (''test.net'', ''test''), (''example.com'', ''example'')]"

section \<open>Properties\<close>

subsection \<open>Combination generator\<close>

lemma generate_Nil: "generate_domain_combinations [] tlds = []"
  by (simp add: generate_domain_combinations_def)

lemma generate_Cons:
  "generate_domain_combinations (b # bs) tlds =
     map (\<lambda>tld. (b @ ''.'' @ tld, b)) tlds @ generate_domain_combinations bs tlds"
  by (simp add: generate_domain_combinations_def)

lemma generate_no_tlds: "generate_domain_combinations bs [] = []"
  by (induction bs) (simp_all add: generate_Nil generate_Cons)

lemma length_generate:
  "length (generate_domain_combinations bs tlds) = length bs * length tlds"
  by (induction bs) (simp_all add: generate_Nil generate_Cons)

lemma nth_generate:
  "i < length bs * length tlds \<Longrightarrow>
   generate_domain_combinations bs tlds ! i =
     (bs ! (i div length tlds) @ ''.'' @ tlds ! (i mod length tlds), bs ! (i div length tlds))"
proof (induction bs arbitrary: i)
  case Nil
  then show ?case by simp
next
  case (Cons b bs)
  show ?case
  proof (cases "i < length tlds")
    case True
    then show ?thesis
      by (simp add: generate_Cons nth_append)
  next
    case False
    define j where "j = i - length tlds"
    have i: "i = j + length tlds"
      using False by (simp add: j_def)
    have pos: "0 < length tlds"
      using Cons.prems by (cases tlds) simp_all
    have "j < length bs * length tlds"
      using Cons.prems by (simp add: i)
    then have "generate_domain_combinations bs tlds ! j =
        (bs ! (j div length tlds) @ ''.'' @ tlds ! (j mod length tlds), bs ! (j div length tlds))"
      by (rule Cons.IH)
    moreover have "i div length tlds = Suc (j div length tlds)" "i mod length tlds = j mod length tlds"
      using pos by (simp_all add: i div_add_self2)
    ultimately show ?thesis
      using False by (simp add: generate_Cons nth_append j_def)
  qed
qed

text \<open>
  Claim C1. For all lists \<open>B\<close> of base strings and \<open>T\<close> of TLDs the generator returns
  exactly \<open>|B| * |T|\<close> pairs; the pair at index \<open>i\<close> is
  \<open>(B[i div |T|] + "." + T[i mod |T|], B[i div |T|])\<close>, which is base-major order; the
  result is empty when \<open>B\<close> or \<open>T\<close> is empty; and nothing is deduplicated: no
  distinctness of \<open>B\<close> or \<open>T\<close> is assumed anywhere, and a base string given twice yields
  its pairs twice.
\<close>

theorem generate_domain_combinations_base_major:
  "length (generate_domain_combinations B T) = length B * length T
   \<and> (\<forall>i < length B * length T.
        generate_domain_combinations B T ! i =
          (B ! (i div length T) @ ''.'' @ T ! (i mod length T), B ! (i div length T)))
   \<and> generate_domain_combinations [] T = []
   \<and> generate_domain_combinations B [] = []
   \<and> generate_domain_combinations [b, b] [t] = [(b @ ''.'' @ t, b), (b @ ''.'' @ t, b)]"
  by (simp add: length_generate nth_generate generate_Nil generate_no_tlds generate_Cons)

theorem generate_domain_combinations_base_major_witness:
  "generate_domain_combinations [''test'', ''example''] [''com'', ''net''] =
     [(''test.com'', ''test''), (''test.net'', ''test''),
      (''example.com'', ''example''), (''example.net'', ''example'')]
   \<and> length (generate_domain_combinations [''test'', ''example''] [''com'', ''net'']) = 4
   \<and> (2::nat) < length [''test'', ''example''] * length [''com'', ''net'']
   \<and> generate_domain_combinations [''test'', ''example''] [''com'', ''net''] ! 2
       = ([''test'', ''example''] ! (2 div 2) @ ''.'' @ [''com'', ''net''] ! (2 mod 2),
          [''test'', ''example''] ! (2 div 2))"
  using generate_domain_combinations_base_major
    [of "[''test'', ''example'']" "[''com'', ''net'']" "''x''" "''y''"]
  by (simp add: generate_domain_combinations_def)

subsection \<open>Stripping\<close>

lemma strip_Nil_iff: "strip s = [] \<longleftrightarrow> list_all isspace s"
proof -
  have "strip s = [] \<longleftrightarrow> dropWhile isspace (rev (dropWhile isspace s)) = []"
    by (simp add: strip_def rstrip_def lstrip_def)
  also have "\<dots> \<longleftrightarrow> (\<forall>c \<in> set (dropWhile isspace s). isspace c)"
    by (simp add: dropWhile_eq_Nil_conv)
  also have "\<dots> \<longleftrightarrow> dropWhile isspace s = []"
  proof
    assume a: "\<forall>c \<in> set (dropWhile isspace s). isspace c"
    show "dropWhile isspace s = []"
    proof (rule ccontr)
      assume ne: "dropWhile isspace s \<noteq> []"
      then have "\<not> isspace (hd (dropWhile isspace s))" by (rule hd_dropWhile)
      moreover have "hd (dropWhile isspace s) \<in> set (dropWhile isspace s)"
        using ne by simp
      ultimately show False using a by blast
    qed
  next
    assume e: "dropWhile isspace s = []"
    show "\<forall>c \<in> set (dropWhile isspace s). isspace c"
      unfolding e by simp
  qed
  also have "\<dots> \<longleftrightarrow> list_all isspace s"
    by (simp add: dropWhile_eq_Nil_conv list_all_iff)
  finally show ?thesis .
qed

lemma strip_ends:
  assumes "strip s \<noteq> []"
  shows "\<not> isspace (hd (strip s))" and "\<not> isspace (last (strip s))"
proof -
  define t where "t = dropWhile isspace s"
  define u where "u = dropWhile isspace (rev t)"
  have st: "strip s = rev u"
    by (simp add: strip_def rstrip_def lstrip_def t_def u_def)
  with assms have u: "u \<noteq> []" by simp
  then have "\<not> isspace (hd u)" unfolding u_def by (rule hd_dropWhile)
  then show "\<not> isspace (last (strip s))"
    using u by (simp add: st last_rev)
  have "rev t = takeWhile isspace (rev t) @ u"
    by (simp add: u_def)
  then have "rev (rev t) = rev (takeWhile isspace (rev t) @ u)" by simp
  then have t: "t = rev u @ rev (takeWhile isspace (rev t))" by simp
  have "t \<noteq> []" using u t by auto
  then have "\<not> isspace (hd t)" unfolding t_def by (rule hd_dropWhile)
  moreover have "hd t = hd (rev u)"
    using u by (subst t) simp
  ultimately show "\<not> isspace (hd (strip s))" by (simp add: st)
qed

lemma load_strings_comprehension:
  "[strip line. line \<leftarrow> ls, strip line \<noteq> []] = map strip (filter (\<lambda>l. \<not> list_all isspace l) ls)"
  by (induction ls) (simp_all add: strip_Nil_iff)

subsection \<open>The scan, step by step\<close>

lemma check_domain_eq:
  "check_domain whois d w = (Inr (\<not> isl (fst (whois d w))), snd (whois d w))"
  by (simp add: check_domain_def isinstance_Exception_def split: prod.splits sum.splits)

lemma notify_log:
  "notify cb d (l1 @ l2) w = (case notify cb d l2 w of (r, t, w') \<Rightarrow> (r, l1 @ t, w'))"
  by (simp add: notify_def split: option.splits prod.splits)

text \<open>How a scan splits into its steps.\<close>

lemma scan_acc:
  "scan whois cb cands (a1 @ a2) (l1 @ l2) w = prepend a1 l1 (scan whois cb cands a2 l2 w)"
proof (induction cands arbitrary: a2 l2 w)
  case Nil
  show ?case by simp
next
  case (Cons c cands)
  obtain d b where c: "c = (d, b)" by (cases c)
  obtain r t w1 where n: "notify cb d l2 w = (r, t, w1)" by (cases "notify cb d l2 w")
  show ?case
  proof (cases r)
    case (Inl e)
    then show ?thesis using n by (simp add: c notify_log)
  next
    case (Inr u)
    have "scan whois cb cands (a1 @ a2 @ x) (l1 @ t @ y) w' = prepend a1 l1 (scan whois cb cands (a2 @ x) (t @ y) w')" for x y w'
      using Cons.IH [of "a2 @ x" "t @ y" w'] by simp
    moreover have "scan whois cb cands (a1 @ a2) (l1 @ t @ y) w' = prepend a1 l1 (scan whois cb cands a2 (t @ y) w')" for y w'
      using Cons.IH [of "a2" "t @ y" w'] by simp
    ultimately show ?thesis using n Inr
      by (simp add: c notify_log check_domain_eq)
  qed
qed


lemma probes_append: "probes (xs @ ys) = probes xs @ probes ys"
  by (induction xs rule: probes.induct) simp_all

lemma scan_from_empty:
  "scan whois cb cands a l w = prepend a l (scan whois cb cands [] [] w)"
  using scan_acc [of whois cb cands a "[]" l "[]" w] by simp

lemma find_Nil: "find_available_domains whois cb [] w = (Inr [], [], w)"
  by (simp add: find_available_domains_def)

lemma find_Cons:
  "find_available_domains whois cb ((d, b) # rest) w =
     (case notify cb d [] w of
        (Inl e, t, w1) \<Rightarrow> (Inl e, t, w1)
      | (Inr u, t, w1) \<Rightarrow>
          (case check_domain whois d w1 of
             (Inl e, w2) \<Rightarrow> (Inl e, t @ [Probed d (Inl e)], w2)
           | (Inr registered, w2) \<Rightarrow>
               prepend (if \<not> registered then [d] else []) (t @ [Probed d (Inr registered)])
                 (find_available_domains whois cb rest w2)))"
proof -
  obtain r t w1 where n: "notify cb d [] w = (r, t, w1)"
    by (cases "notify cb d [] w")
  show ?thesis
  proof (cases r)
    case (Inl e)
    then show ?thesis
      using n by (simp add: find_available_domains_def)
  next
    case (Inr u)
    obtain v w2 where cd: "check_domain whois d w1 = (Inr v, w2)"
      by (simp add: check_domain_eq)
    have "scan whois cb rest (if \<not> v then [d] else []) (t @ [Probed d (Inr v)]) w2 =
        prepend (if \<not> v then [d] else []) (t @ [Probed d (Inr v)])
          (scan whois cb rest [] [] w2)"
      by (rule scan_from_empty)
    then show ?thesis
      using n Inr cd by (cases v) (simp_all add: find_available_domains_def)
  qed
qed

lemma prepend_Nil: "prepend [] [] x = x"
proof -
  obtain r t w where "x = (r, t, w)" by (cases x)
  then show ?thesis by (cases r) simp_all
qed

lemma prepend_prepend: "prepend a t (prepend a' t' x) = prepend (a @ a') (t @ t') x"
proof -
  obtain r l w where "x = (r, l, w)" by (cases x)
  then show ?thesis by (cases r) simp_all
qed

lemma find_append:
  "find_available_domains whois cb (pre @ post) w =
     (case find_available_domains whois cb pre w of
        (Inl e, t, w1) \<Rightarrow> (Inl e, t, w1)
      | (Inr a, t, w1) \<Rightarrow> prepend a t (find_available_domains whois cb post w1))"
proof (induction pre arbitrary: w)
  case Nil
  show ?case
    by (simp add: find_Nil prepend_Nil)
next
  case (Cons c pre)
  obtain d b where c: "c = (d, b)" by (cases c)
  show ?case
    by (simp add: c find_Cons Cons.IH prepend_prepend split: prod.splits sum.splits)
qed


lemma prepend_eq_Inr:
  "prepend a l x = (Inr avail, log, w') \<longleftrightarrow>
     (\<exists>av' log'. x = (Inr av', log', w') \<and> avail = a @ av' \<and> log = l @ log')"
proof -
  obtain r t w where "x = (r, t, w)" by (cases x)
  then show ?thesis by (cases r) auto
qed


lemma notify_None: "notify None d l w = (Inr (), l, w)"
  by (simp add: notify_def)

lemma notify_truthy:
  "truthy sink \<Longrightarrow>
   notify (Some sink) d l w = (fst (call sink d w), l @ [Notified d], snd (call sink d w))"
  by (simp add: notify_def split: prod.splits)


lemma notify_function:
  "notify (Some (function_object f)) d l w = (fst (f d w), l @ [Notified d], snd (f d w))"
  by (simp add: notify_truthy function_object_def)

lemma probes_notify: "notify cb d [] w = (r, t, w1) \<Longrightarrow> probes t = []"
  by (cases cb) (auto simp: notify_def split: if_splits prod.splits)

lemma find_returned:
  "find_available_domains whois cb cands w = (Inr avail, log, w') \<Longrightarrow>
     map fst (probes log) = map fst cands \<and>
     avail = map fst (filter (\<lambda>p. snd p = Inr False) (probes log))"
proof (induction cands arbitrary: w avail log)
  case Nil
  then show ?case by (simp add: find_Nil)
next
  case (Cons c cands)
  obtain d b where c: "c = (d, b)" by (cases c)
  obtain r t w1 where n: "notify cb d [] w = (r, t, w1)"
    by (cases "notify cb d [] w")
  obtain v w2 where cd: "check_domain whois d w1 = (Inr v, w2)"
    by (simp add: check_domain_eq)
  from Cons.prems n cd obtain av' log' where
    rest: "find_available_domains whois cb cands w2 = (Inr av', log', w')"
    and avail: "avail = (if \<not> v then [d] else []) @ av'"
    and log: "log = (t @ [Probed d (Inr v)]) @ log'"
    by (cases r) (auto simp: c find_Cons prepend_eq_Inr)
  from Cons.IH [OF rest] probes_notify [OF n] show ?case
    by (simp add: c avail log probes_append)
qed



lemma find_without_sink_returns:
  "\<exists>avail log w'. find_available_domains whois None cands w = (Inr avail, log, w')"
proof (induction cands arbitrary: w)
  case Nil
  show ?case by (simp add: find_Nil)
next
  case (Cons c cands)
  obtain d b where c: "c = (d, b)" by (cases c)
  obtain v w2 where cd: "check_domain whois d w = (Inr v, w2)"
    by (simp add: check_domain_eq)
  from Cons.IH [of w2] show ?case
    by (auto simp: c find_Cons notify_None cd)
qed

lemma find_stateless:
  "find_available_domains (\<lambda>d w. (f d, w)) cb cands w = (Inr avail, log, w') \<Longrightarrow>
     avail = filter (\<lambda>d. isl (f d)) (map fst cands)"
proof (induction cands arbitrary: w avail log)
  case Nil
  then show ?case by (simp add: find_Nil)
next
  case (Cons c cands)
  obtain d b where c: "c = (d, b)" by (cases c)
  obtain r t w1 where n: "notify cb d [] w = (r, t, w1)"
    by (cases "notify cb d [] w")
  have cd: "check_domain (\<lambda>d w. (f d, w)) d w1 = (Inr (\<not> isl (f d)), w1)"
    by (simp add: check_domain_eq)
  from Cons.prems n cd obtain av' log' where
    rest: "find_available_domains (\<lambda>d w. (f d, w)) cb cands w1 = (Inr av', log', w')"
    and avail: "avail = (if isl (f d) then [d] else []) @ av'"
    by (cases r) (auto simp: c find_Cons prepend_eq_Inr)
  from Cons.IH [OF rest] show ?case
    by (simp add: c avail)
qed




lemmas run_defs = find_available_domains_def example_candidates_def example_whois_def
  example_registry_def example_sink_def quiet_sink_def example_falsy_sink_def
  function_object_def notify_def check_domain_def isinstance_Exception_def

subsection \<open>Availability prober\<close>

text \<open>
  Claim C3. For every domain, every WHOIS service and every state of the world,
  \<^verbatim>\<open>check_domain\<close> returns \<^verbatim>\<open>True\<close> exactly when the query returns a record, and
  returns \<^verbatim>\<open>False\<close> when the query raises, whatever the exception is (so faults are not
  told apart from one another or from a missing registration); it never raises itself;
  and it leaves the world as the single query left it.
\<close>

theorem check_domain_classifies:
  "(fst (check_domain whois domain w) = Inr True \<longleftrightarrow> (\<exists>entry. fst (whois domain w) = Inr entry))
   \<and> (\<forall>e. fst (whois domain w) = Inl e \<longrightarrow> fst (check_domain whois domain w) = Inr False)
   \<and> (\<forall>e. fst (check_domain whois domain w) \<noteq> Inl e)
   \<and> snd (check_domain whois domain w) = snd (whois domain w)"
  by (cases "fst (whois domain w)") (simp_all add: check_domain_eq)

theorem check_domain_classifies_witness:
  "fst (example_whois ''test.net'' 0) = Inl (OtherException ''No match'')
   \<and> fst (check_domain example_whois ''test.net'' 0) = Inr False
   \<and> fst (example_whois ''test.com'' 0) = Inr ()
   \<and> fst (check_domain example_whois ''test.com'' 0) = Inr True"
  using check_domain_classifies [of example_whois "''test.net''" 0]
    check_domain_classifies [of example_whois "''test.com''" 0]
  by (simp add: example_whois_def example_registry_def)

subsection \<open>Result aggregator\<close>

text \<open>
  Claim C2. For every candidate list and every WHOIS service, stateful or not,
  \<^verbatim>\<open>find_available_domains\<close> called without a sink returns; every candidate was
  probed once, in input order, and the result is the list of the domains whose call of
  \<^verbatim>\<open>check_domain\<close> returned \<^verbatim>\<open>False\<close>, in that order, so it is a subsequence of the
  input domains. The same holds of the result whenever a call with a sink returns. For
  a service whose answer depends on the domain only, the result is the input domains
  filtered by "the query raises".
\<close>

theorem find_available_domains_result:
  "(\<exists>avail log w'. find_available_domains whois None cands w = (Inr avail, log, w')
       \<and> map fst (probes log) = map fst cands
       \<and> avail = map fst (filter (\<lambda>p. snd p = Inr False) (probes log))
       \<and> subseq avail (map fst cands))
   \<and> (find_available_domains whois cb cands w = (Inr avail, log, w') \<longrightarrow>
        map fst (probes log) = map fst cands
        \<and> avail = map fst (filter (\<lambda>p. snd p = Inr False) (probes log))
        \<and> subseq avail (map fst cands))
   \<and> fst (find_available_domains (\<lambda>d s. (f d, s)) None cands s)
        = Inr (filter (\<lambda>d. isl (f d)) (map fst cands))
   \<and> (find_available_domains (\<lambda>d s. (f d, s)) cb' cands s = (Inr avail', log', s') \<longrightarrow>
        avail' = filter (\<lambda>d. isl (f d)) (map fst cands))"
proof -
  have returned: "map fst (probes l) = map fst cands
      \<and> a = map fst (filter (\<lambda>p. snd p = Inr False) (probes l))
      \<and> subseq a (map fst cands)"
    if r: "find_available_domains whois c cands w = (Inr a, l, v)" for c a l v
  proof -
    from find_returned [OF r]
    have p: "map fst (probes l) = map fst cands"
      and a: "a = map fst (filter (\<lambda>p. snd p = Inr False) (probes l))"
      by simp_all
    have "subseq (map fst (filter (\<lambda>p. snd p = Inr False) (probes l))) (map fst (probes l))"
      by (intro subseq_map subseq_filter_left)
    then have "subseq a (map fst cands)"
      by (simp add: a [symmetric] p)
    with p a show ?thesis by simp
  qed
  obtain a l v where r: "find_available_domains whois None cands w = (Inr a, l, v)"
    using find_without_sink_returns [of whois cands w] by auto
  obtain a0 l0 s0 where
    r0: "find_available_domains (\<lambda>d s. (f d, s)) None cands s = (Inr a0, l0, s0)"
    using find_without_sink_returns [of "\<lambda>d s. (f d, s)" cands s] by auto
  have "fst (find_available_domains (\<lambda>d s. (f d, s)) None cands s)
      = Inr (filter (\<lambda>d. isl (f d)) (map fst cands))"
    using find_stateless [OF r0] by (simp add: r0)
  moreover have "\<exists>avail log w'. find_available_domains whois None cands w = (Inr avail, log, w')
       \<and> map fst (probes log) = map fst cands
       \<and> avail = map fst (filter (\<lambda>p. snd p = Inr False) (probes log))
       \<and> subseq avail (map fst cands)"
    using r returned [OF r] by blast
  ultimately show ?thesis
    using returned [of cb avail log w'] find_stateless [of f cb' cands s avail' log' s']
    by blast
qed

theorem find_available_domains_result_witness:
  "find_available_domains example_whois None example_candidates 0 =
     (Inr [''test.net''],
      [Probed ''test.com'' (Inr True), Probed ''test.net'' (Inr False),
       Probed ''example.com'' (Inr True)], 3)
   \<and> subseq [''test.net''] (map fst example_candidates)
   \<and> [''test.net''] = map fst (filter (\<lambda>p. snd p = Inr False)
         (probes [Probed ''test.com'' (Inr True), Probed ''test.net'' (Inr False),
                  Probed ''example.com'' (Inr True)]))
   \<and> find_available_domains (\<lambda>d s. (example_registry d, s)) (Some (function_object quiet_sink))
         example_candidates 0 =
       (Inr [''test.net''],
        [Notified ''test.com'', Probed ''test.com'' (Inr True),
         Notified ''test.net'', Probed ''test.net'' (Inr False),
         Notified ''example.com'', Probed ''example.com'' (Inr True)], 0)
   \<and> [''test.net''] = filter (\<lambda>d. isl (example_registry d)) (map fst example_candidates)"
proof -
  have a: "find_available_domains example_whois None example_candidates 0 =
     (Inr [''test.net''],
      [Probed ''test.com'' (Inr True), Probed ''test.net'' (Inr False),
       Probed ''example.com'' (Inr True)], 3)"
    by (simp add: run_defs)
  have b: "find_available_domains (\<lambda>d s. (example_registry d, s)) (Some (function_object quiet_sink))
         example_candidates 0 =
       (Inr [''test.net''],
        [Notified ''test.com'', Probed ''test.com'' (Inr True),
         Notified ''test.net'', Probed ''test.net'' (Inr False),
         Notified ''example.com'', Probed ''example.com'' (Inr True)], 0)"
    by (simp add: run_defs)
  note t = find_available_domains_result [of example_whois example_candidates 0 None
      "[''test.net'']"
      "[Probed ''test.com'' (Inr True), Probed ''test.net'' (Inr False),
        Probed ''example.com'' (Inr True)]" 3 example_registry 0 "Some (function_object quiet_sink)"
      "[''test.net'']"
      "[Notified ''test.com'', Probed ''test.com'' (Inr True),
         Notified ''test.net'', Probed ''test.net'' (Inr False),
         Notified ''example.com'', Probed ''example.com'' (Inr True)]" 0]
  from t a have "subseq [''test.net''] (map fst example_candidates)
     \<and> [''test.net''] = map fst (filter (\<lambda>p. snd p = Inr False)
         (probes [Probed ''test.com'' (Inr True), Probed ''test.net'' (Inr False),
                  Probed ''example.com'' (Inr True)]))"
    by blast
  moreover from t b
  have "[''test.net''] = filter (\<lambda>d. isl (example_registry d)) (map fst example_candidates)"
    by blast
  ultimately show ?thesis using a b by blast
qed




text \<open>
  Claim C6. A sink that raises is one that was called, so it tests true. If the scan
  of the candidates before the \<open>i\<close>-th returns and the sink then raises \<open>e\<close> on the
  \<open>i\<close>-th candidate, the whole scan ends with \<open>e\<close> and no result list; the last logged
  call is that notification, and the probes made are those of the \<open>i\<close> earlier
  candidates only.
\<close>

theorem sink_fault_aborts_scan:
  assumes "i < length cands"
    and "truthy sink"
    and "find_available_domains whois (Some sink) (take i cands) w = (Inr avail, log, w1)"
    and "call sink (fst (cands ! i)) w1 = (Inl e, w2)"
  shows "find_available_domains whois (Some sink) cands w =
           (Inl e, log @ [Notified (fst (cands ! i))], w2)
         \<and> map fst (probes (log @ [Notified (fst (cands ! i))])) = map fst (take i cands)
         \<and> length (probes (log @ [Notified (fst (cands ! i))])) = i"
proof -
  obtain d b where c: "cands ! i = (d, b)" by (cases "cands ! i")
  define post where "post = drop (Suc i) cands"
  have "(d, b) # post = drop i cands"
    using Cons_nth_drop_Suc [OF assms(1)] c by (simp add: post_def)
  then have split: "take i cands @ (d, b) # post = cands"
    by simp
  have step: "find_available_domains whois (Some sink) ((d, b) # post) w1 =
      (Inl e, [Notified d], w2)"
    using assms(4) by (simp add: c find_Cons notify_truthy [OF assms(2)])
  have "find_available_domains whois (Some sink) (take i cands @ (d, b) # post) w =
      (Inl e, log @ [Notified d], w2)"
    unfolding find_append [of whois "Some sink" "take i cands" "(d, b) # post" w]
    by (simp add: assms(3) step)
  then have run: "find_available_domains whois (Some sink) cands w = (Inl e, log @ [Notified d], w2)"
    unfolding split .
  have p: "map fst (probes log) = map fst (take i cands)"
    using find_returned [OF assms(3)] by simp
  then have "length (probes log) = length (take i cands)"
    by (metis length_map)
  then have "length (probes log) = i"
    using assms(1) by simp
  with run p show ?thesis
    by (simp add: c probes_append)
qed

theorem sink_fault_aborts_scan_witness:
  "(1::nat) < length example_candidates
   \<and> truthy (function_object example_sink)
   \<and> find_available_domains example_whois (Some (function_object example_sink))
         (take 1 example_candidates) 0 =
       (Inr [], [Notified ''test.com'', Probed ''test.com'' (Inr True)], 1)
   \<and> call (function_object example_sink) (fst (example_candidates ! 1)) 1
       = (Inl (OtherException ''sink failed''), 1)
   \<and> find_available_domains example_whois (Some (function_object example_sink))
         example_candidates 0 =
       (Inl (OtherException ''sink failed''),
        [Notified ''test.com'', Probed ''test.com'' (Inr True), Notified ''test.net''], 1)"
proof -
  have a: "(1::nat) < length example_candidates"
    by (simp add: example_candidates_def)
  have t: "truthy (function_object example_sink)"
    by (simp add: function_object_def)
  have b: "find_available_domains example_whois (Some (function_object example_sink))
         (take 1 example_candidates) 0 =
       (Inr [], [Notified ''test.com'', Probed ''test.com'' (Inr True)], 1)"
    by (simp add: run_defs)
  have c: "call (function_object example_sink) (fst (example_candidates ! 1)) 1
       = (Inl (OtherException ''sink failed''), 1)"
    by (simp add: example_sink_def example_candidates_def function_object_def)
  from sink_fault_aborts_scan [OF a t b c] a t b c show ?thesis
    by (simp add: example_candidates_def)
qed

subsection \<open>Loaders\<close>

lemma try_except_Inr: "try_except handles dflt (Inr v) = Inr v"
  by (simp add: try_except_def)

lemma try_except_Inl:
  "try_except handles dflt (Inl e) = (if handles e then Inr dflt else Inl e)"
  by (simp add: try_except_def)

lemma load_config_absent:
  "open_text h path = Inl FileNotFoundError \<Longrightarrow> load_config h path = Inr []"
  by (simp add: load_config_def try_except_Inl isinstance_FileNotFoundError_def)

lemma load_config_mapping:
  "open_text h path = Inr text \<Longrightarrow> yaml_safe_load h text = Inr (YMapping items) \<Longrightarrow>
   load_config h path =
     Inr (case map_of items ''top_level_domains'' of Some v \<Rightarrow> v | None \<Rightarrow> [])"
  by (simp add: load_config_def try_except_Inr)

lemma load_config_not_mapping:
  "open_text h path = Inr text \<Longrightarrow> yaml_safe_load h text = Inr doc \<Longrightarrow>
   (\<forall>items. doc \<noteq> YMapping items) \<Longrightarrow> load_config h path = Inl AttributeError"
  by (cases doc)
    (simp_all add: load_config_def try_except_Inl isinstance_FileNotFoundError_def)

lemma load_strings_absent:
  "open_text h path = Inl FileNotFoundError \<Longrightarrow> load_strings h path = Inr []"
  by (simp add: load_strings_def try_except_Inl isinstance_FileNotFoundError_def)

lemma load_strings_readable:
  "open_text h path = Inr text \<Longrightarrow>
   load_strings h path =
     Inr (map strip (filter (\<lambda>l. \<not> list_all isspace l) (file_lines text)))"
  by (simp add: load_strings_def try_except_Inr load_strings_comprehension)

lemma main_no_base_strings:
  "load_config h (config a) = Inr tlds \<Longrightarrow> load_strings h (input_file a) = Inr [] \<Longrightarrow>
   main h service a w = (Inr (), [], print ''No available domains found.'' w)"
  by (simp add: main_def generate_Nil find_Nil print_results_def)

lemma main_config_fault:
  "load_config h (config a) = Inl e \<Longrightarrow> main h service a w = (Inl e, [], w)"
  by (simp add: main_def)

lemma set_generate:
  "c \<in> set (generate_domain_combinations bs tlds) \<Longrightarrow>
   \<exists>b \<in> set bs. \<exists>t \<in> set tlds. c = (b @ ''.'' @ t, b)"
  by (auto simp: generate_domain_combinations_def)

lemmas host_defs = example_host_def load_config_def load_strings_def try_except_def
  isinstance_FileNotFoundError_def strip_def lstrip_def rstrip_def isspace_def

text \<open>
  Claim C7. An absent configuration file gives the empty list, and so does a parsed
  mapping without the key (\<open>load_config_absent\<close>, \<open>load_config_mapping\<close>). But a
  document can parse and hold no key without being a mapping: an empty configuration
  file parses to \<^verbatim>\<open>None\<close>, and then \<^verbatim>\<open>config.get\<close> raises \<^verbatim>\<open>AttributeError\<close>, which
  the handler for \<^verbatim>\<open>FileNotFoundError\<close> lets through to the caller.
\<close>

theorem empty_config_raises:
  "open_text example_host ''empty.yaml'' = Inr []
   \<and> yaml_safe_load example_host [] = Inr YNull
   \<and> load_config example_host ''empty.yaml'' = Inl AttributeError
   \<and> load_config example_host ''absent.yaml'' = Inr []
   \<and> load_config example_host ''other.yaml'' = Inr []"
  by (simp add: example_host_def load_config_def try_except_def
      isinstance_FileNotFoundError_def)

text \<open>
  Claim C8. If the configuration file can be read and the YAML parser raises on its
  text, \<^verbatim>\<open>load_config\<close> ends with that exception and not with an empty list, and a
  run with this configuration ends with it too, having printed nothing.
\<close>

theorem malformed_config_propagates:
  assumes "open_text h config_file = Inr text"
    and "yaml_safe_load h text = Inl YAMLError"
  shows "load_config h config_file = Inl YAMLError
         \<and> load_config h config_file \<noteq> Inr []
         \<and> main h service \<lparr>input_file = strings_file, config = config_file\<rparr> w
             = (Inl YAMLError, [], w)"
proof -
  have "load_config h config_file = Inl YAMLError"
    using assms
    by (simp add: load_config_def try_except_Inl isinstance_FileNotFoundError_def)
  then show ?thesis
    by (simp add: main_config_fault)
qed

theorem malformed_config_propagates_witness:
  "open_text example_host ''broken.yaml'' = Inr ''top_level_domains: [''
   \<and> yaml_safe_load example_host ''top_level_domains: ['' = Inl YAMLError
   \<and> load_config example_host ''broken.yaml'' = Inl YAMLError
   \<and> main example_host example_whois \<lparr>input_file = ''domains.txt'', config = ''broken.yaml''\<rparr>
        \<lparr>stdout = [], net = 0\<rparr> = (Inl YAMLError, [], \<lparr>stdout = [], net = 0\<rparr>)"
proof -
  have a: "open_text example_host ''broken.yaml'' = Inr ''top_level_domains: [''"
    by (simp add: example_host_def)
  have b: "yaml_safe_load example_host ''top_level_domains: ['' = Inl YAMLError"
    by (simp add: example_host_def)
  from malformed_config_propagates [OF a b, of example_whois "''domains.txt''"
      "\<lparr>stdout = [], net = 0\<rparr>"] a b
  show ?thesis by simp
qed

text \<open>
  Claim C9, amended. For a file that can be read, \<^verbatim>\<open>load_strings\<close> returns the
  stripped non-blank lines in file order (a line is blank when all its characters are
  whitespace); for an absent file it returns the empty list. In a run whose
  base-string file is absent and whose configuration loads, the candidate list and
  the result list are empty, nothing is probed, and the run ends normally after
  printing that no domain was found.
\<close>

theorem load_strings_lines:
  "(open_text h path = Inr text \<longrightarrow>
      load_strings h path =
        Inr (map strip (filter (\<lambda>l. \<not> list_all isspace l) (file_lines text))))
   \<and> (open_text h path = Inl FileNotFoundError \<longrightarrow> load_strings h path = Inr [])
   \<and> (open_text h (input_file a) = Inl FileNotFoundError \<and> load_config h (config a) = Inr tlds \<longrightarrow>
        load_strings h (input_file a) = Inr []
        \<and> generate_domain_combinations [] tlds = []
        \<and> find_available_domains (whois_whois service) (Some (function_object print_status)) [] w = (Inr [], [], w)
        \<and> main h service a w = (Inr (), [], print ''No available domains found.'' w))"
  by (simp add: load_strings_readable load_strings_absent generate_Nil find_Nil
      main_no_base_strings)

theorem load_strings_lines_witness:
  "open_text example_host ''domains.txt'' =
     Inr (''  example  '' @ [LF] @ [LF] @ ''   '' @ [LF] @ ''test'')
   \<and> load_strings example_host ''domains.txt'' = Inr [''example'', ''test'']
   \<and> open_text example_host ''missing.txt'' = Inl FileNotFoundError
   \<and> load_strings example_host ''missing.txt'' = Inr []
   \<and> load_config example_host ''config.yaml'' = Inr [''com'', ''net'']
   \<and> main example_host example_whois \<lparr>input_file = ''missing.txt'', config = ''config.yaml''\<rparr>
        \<lparr>stdout = [], net = 0\<rparr>
       = (Inr (), [], \<lparr>stdout = ''No available domains found.'' @ [LF], net = 0\<rparr>)"
proof -
  have a: "open_text example_host ''domains.txt'' =
     Inr (''  example  '' @ [LF] @ [LF] @ ''   '' @ [LF] @ ''test'')"
    by (simp add: example_host_def)
  have b: "open_text example_host ''missing.txt'' = Inl FileNotFoundError"
    by (simp add: example_host_def)
  have c: "load_config example_host ''config.yaml'' = Inr [''com'', ''net'']"
    by (simp add: host_defs)
  have l: "map strip (filter (\<lambda>l. \<not> list_all isspace l)
        (file_lines (''  example  '' @ [LF] @ [LF] @ ''   '' @ [LF] @ ''test''))) = [''example'', ''test'']"
    by (simp add: host_defs)
  from a b c l
    load_strings_lines [of example_host "''domains.txt''"
      "''  example  '' @ [LF] @ [LF] @ ''   '' @ [LF] @ ''test''"
      "\<lparr>input_file = ''missing.txt'', config = ''config.yaml''\<rparr>" "[''com'', ''net'']"
      example_whois "\<lparr>stdout = [], net = 0\<rparr>"]
    load_strings_lines [of example_host "''missing.txt''" "[]"
      "\<lparr>input_file = ''missing.txt'', config = ''config.yaml''\<rparr>" "[''com'', ''net'']"
      example_whois "\<lparr>stdout = [], net = 0\<rparr>"]
  show ?thesis by (simp add: print_def)
qed

text \<open>
  The claim as stated, for every run with an absent base-string file, fails: the
  configuration is loaded first, and when it does not parse the run ends with the
  parser's exception.
\<close>

theorem missing_strings_malformed_config:
  "open_text example_host ''missing.txt'' = Inl FileNotFoundError
   \<and> main example_host example_whois \<lparr>input_file = ''missing.txt'', config = ''broken.yaml''\<rparr>
        \<lparr>stdout = [], net = 0\<rparr> = (Inl YAMLError, [], \<lparr>stdout = [], net = 0\<rparr>)"
  by (simp add: main_def host_defs)

text \<open>
  Claim C10. For a file that can be read, the base strings returned are the stripped
  lines that keep at least one character, so lines of whitespace only are skipped like
  empty ones; every base string is non-empty and neither starts nor ends with
  whitespace; every generated candidate carries such a base string, and its domain
  name starts with it. The line \<^verbatim>\<open>"  example  "\<close> with its newline yields \<^verbatim>\<open>"example"\<close>.
\<close>

theorem load_strings_strips:
  assumes "open_text h path = Inr text"
  shows "\<exists>bs. load_strings h path = Inr bs
          \<and> bs = map strip (filter (\<lambda>l. \<not> list_all isspace l) (file_lines text))
          \<and> (\<forall>s \<in> set bs. s \<noteq> [] \<and> \<not> isspace (hd s) \<and> \<not> isspace (last s))
          \<and> (\<forall>c \<in> set (generate_domain_combinations bs tlds).
                snd c \<in> set bs \<and> \<not> isspace (hd (fst c)))
          \<and> strip (''  example  '' @ [LF]) = ''example''"
proof -
  define bs where "bs = map strip (filter (\<lambda>l. \<not> list_all isspace l) (file_lines text))"
  have ls: "load_strings h path = Inr bs"
    using assms by (simp add: load_strings_readable bs_def)
  have ends: "s \<noteq> [] \<and> \<not> isspace (hd s) \<and> \<not> isspace (last s)" if "s \<in> set bs" for s
  proof -
    from that obtain l where "s = strip l" "\<not> list_all isspace l"
      by (auto simp: bs_def)
    then have "strip l \<noteq> []" by (simp add: strip_Nil_iff)
    with \<open>s = strip l\<close> show ?thesis by (simp add: strip_ends)
  qed
  have doms: "snd c \<in> set bs \<and> \<not> isspace (hd (fst c))"
    if "c \<in> set (generate_domain_combinations bs tlds)" for c
  proof -
    from set_generate [OF that] obtain b t where b: "b \<in> set bs" and c: "c = (b @ ''.'' @ t, b)"
      by blast
    from ends [OF b] show ?thesis by (simp add: c b)
  qed
  have ex: "strip (''  example  '' @ [LF]) = ''example''"
    by (simp add: strip_def lstrip_def rstrip_def isspace_def)
  from ls ends doms ex show ?thesis
    unfolding bs_def [symmetric] by blast
qed

theorem load_strings_strips_witness:
  "open_text example_host ''domains.txt'' =
     Inr (''  example  '' @ [LF] @ [LF] @ ''   '' @ [LF] @ ''test'')
   \<and> load_strings example_host ''domains.txt'' = Inr [''example'', ''test'']
   \<and> generate_domain_combinations [''example'', ''test''] [''com''] =
       [(''example.com'', ''example''), (''test.com'', ''test'')]
   \<and> \<not> isspace (hd ''example'') \<and> \<not> isspace (last ''example'')"
proof -
  have a: "open_text example_host ''domains.txt'' =
     Inr (''  example  '' @ [LF] @ [LF] @ ''   '' @ [LF] @ ''test'')"
    by (simp add: example_host_def)
  have l: "map strip (filter (\<lambda>l. \<not> list_all isspace l)
        (file_lines (''  example  '' @ [LF] @ [LF] @ ''   '' @ [LF] @ ''test''))) = [''example'', ''test'']"
    by (simp add: host_defs)
  from load_strings_strips [OF a, of "[''com'']"] obtain bs where
    bs: "load_strings example_host ''domains.txt'' = Inr bs"
      "bs = map strip (filter (\<lambda>l. \<not> list_all isspace l)
        (file_lines (''  example  '' @ [LF] @ [LF] @ ''   '' @ [LF] @ ''test'')))"
      "\<forall>s \<in> set bs. s \<noteq> [] \<and> \<not> isspace (hd s) \<and> \<not> isspace (last s)"
    by blast
  from bs(2) l have e: "bs = [''example'', ''test'']" by simp
  from bs(3) have "\<not> isspace (hd ''example'') \<and> \<not> isspace (last ''example'')"
    unfolding e by simp
  with a bs(1) e show ?thesis
    by (simp add: generate_domain_combinations_def)
qed

subsection \<open>The main pipeline\<close>

lemma stdout_whois_whois: "stdout (snd (whois_whois service d w)) = stdout w"
  by (simp add: whois_whois_def split: prod.splits)

lemma scan_print_status:
  "find_available_domains (whois_whois service) (Some (function_object print_status)) cands w = (res, log, w') \<Longrightarrow>
   stdout w' = stdout w @ concat (map (\<lambda>(d, b). ''Checking: '' @ d @ [LF]) cands)
   \<and> (\<exists>avail. res = Inr avail)"
proof (induction cands arbitrary: w res log w')
  case Nil
  then show ?case by (auto simp: find_Nil)
next
  case (Cons c cands)
  obtain d b where c: "c = (d, b)" by (cases c)
  define w1 where "w1 = print (''Checking: '' @ d) w"
  define w2 where "w2 = snd (whois_whois service d w1)"
  have out: "stdout w2 = stdout w @ ''Checking: '' @ d @ [LF]"
    by (simp add: w2_def stdout_whois_whois w1_def print_def)
  obtain v where cd: "check_domain (whois_whois service) d w1 = (Inr v, w2)"
    by (simp add: check_domain_eq w2_def)
  obtain r t w3 where rest: "find_available_domains (whois_whois service) (Some (function_object print_status)) cands w2 = (r, t, w3)"
    by (cases "find_available_domains (whois_whois service) (Some (function_object print_status)) cands w2")
  from Cons.IH [OF rest] obtain avail where
    r: "r = Inr avail" and o: "stdout w3 = stdout w2 @ concat (map (\<lambda>(d, b). ''Checking: '' @ d @ [LF]) cands)"
    by blast
  have n: "notify (Some (function_object print_status)) d [] w = (Inr (), [Notified d], w1)"
    by (simp add: notify_function print_status_def w1_def)
  from Cons.prems have "w' = w3 \<and> (\<exists>avail. res = Inr avail)"
    by (auto simp: c find_Cons n cd rest r)
  then show ?case
    by (simp add: o out c)
qed

lemma main_output:
  assumes "load_config h (config a) = Inr tlds"
    and "load_strings h (input_file a) = Inr bs"
  shows "\<exists>avail log w'.
           find_available_domains (whois_whois service) (Some (function_object print_status))
               (generate_domain_combinations bs tlds) w = (Inr avail, log, w')
           \<and> main h service a w = (Inr (), log, print_results avail w')
           \<and> stdout w' = stdout w @
                 concat (map (\<lambda>(d, b). ''Checking: '' @ d @ [LF])
                   (generate_domain_combinations bs tlds))"
proof -
  obtain r log w' where
    run: "find_available_domains (whois_whois service) (Some (function_object print_status))
            (generate_domain_combinations bs tlds) w = (r, log, w')"
    by (cases "find_available_domains (whois_whois service) (Some (function_object print_status))
            (generate_domain_combinations bs tlds) w")
  from scan_print_status [OF run] obtain avail where r: "r = Inr avail"
    and out: "stdout w' = stdout w @
        concat (map (\<lambda>(d, b). ''Checking: '' @ d @ [LF]) (generate_domain_combinations bs tlds))"
    by blast
  have "main h service a w = (Inr (), log, print_results avail w')"
    using assms run r by (simp add: main_def)
  with run r out show ?thesis by blast
qed

text \<open>
  Claim C4. The claim says the progress line names the base string. The run below
  has the base strings \<^verbatim>\<open>example\<close> and \<^verbatim>\<open>test\<close> and prints, before each probe,
  \<^verbatim>\<open>Checking:\<close> followed by the full domain name: the scan passes the
  domain to its sink, and \<^verbatim>\<open>main\<close> supplies \<^verbatim>\<open>print_status\<close> as the sink
  (\<open>main_output\<close> shows it for every run).
\<close>

theorem progress_line_shows_domain:
  "main example_host example_whois \<lparr>input_file = ''domains.txt'', config = ''config.yaml''\<rparr>
      \<lparr>stdout = [], net = 0\<rparr> =
     (Inr (),
      [Notified ''example.com'', Probed ''example.com'' (Inr True),
       Notified ''example.net'', Probed ''example.net'' (Inr True),
       Notified ''test.com'', Probed ''test.com'' (Inr True),
       Notified ''test.net'', Probed ''test.net'' (Inr False)],
      \<lparr>stdout = ''Checking: example.com'' @ [LF] @ ''Checking: example.net'' @ [LF] @
                 ''Checking: test.com'' @ [LF] @ ''Checking: test.net'' @ [LF] @
                 ''Available domains:'' @ [LF] @ ''test.net'' @ [LF],
       net = 4\<rparr>)"
  by (simp add: main_def host_defs generate_domain_combinations_def find_available_domains_def
      notify_def function_object_def print_status_def print_def check_domain_def
      isinstance_Exception_def whois_whois_def example_whois_def example_registry_def
      print_results_def)

end
